theory Spec2Isabelle
  imports Complex_Main "HOL-Library.Multiset"
begin

unbundle bit_operations_syntax

section \<open>Numbers\<close>

text \<open>
  The program is TypeScript; every quantity has type \<^verbatim>\<open>number\<close>.  Continuous quantities
  (coordinates, seeds, noise values, range bounds, weights) are modelled as \<^typ>\<open>real\<close>:
  finite values without rounding.  Array indices and table entries are \<^typ>\<open>nat\<close> or
  \<^typ>\<open>int\<close>.  A loop \<^verbatim>\<open>for (let k = 0; k < n; k++)\<close> over a real bound \<open>n\<close> runs
  \<open>nat \<lceil>n\<rceil>\<close> times, which is how the loop counts below are written.
\<close>

section \<open>Biome rules\<close>

text \<open>
  \<^verbatim>\<open>interface Biome\<close>: the optional \<^verbatim>\<open>heightRange\<close> is an \<open>option\<close>; the colour is kept as
  the hexadecimal string handed to \<^verbatim>\<open>three.Color\<close>.
\<close>

record Biome =
  name :: string
  temperatureRange :: "real \<times> real"
  humidityRange :: "real \<times> real"
  heightRange :: "(real \<times> real) option"
  color :: string
  weight :: real

text \<open>
  The predicate passed to \<^verbatim>\<open>biomes.filter\<close> in \<^verbatim>\<open>generateTerrainMesh\<close>; \<open>h\<close> is the
  value \<^verbatim>\<open>noiseMap[z][x]\<close>.
\<close>

definition viable :: "real \<Rightarrow> real \<Rightarrow> real \<Rightarrow> Biome \<Rightarrow> bool" where
  "viable temp humid h biome \<longleftrightarrow>
     temp \<ge> fst (temperatureRange biome) \<and> temp \<le> snd (temperatureRange biome) \<and>
     humid \<ge> fst (humidityRange biome) \<and> humid \<le> snd (humidityRange biome) \<and>
     (case heightRange biome of
        Some r \<Rightarrow> h \<ge> fst r \<and> h \<le> snd r
      | None \<Rightarrow> True)"

text \<open>The callback of \<^verbatim>\<open>viableBiomes.reduce\<close>.\<close>

definition pick :: "Biome \<Rightarrow> Biome \<Rightarrow> Biome" where
  "pick prev current = (if weight current > weight prev then current else prev)"

text \<open>
  The selection of one biome for a sample.  \<^verbatim>\<open>reduce\<close> without an initial value starts
  from the first viable element.  \<^verbatim>\<open>biomes[0]\<close> of an empty array is \<^verbatim>\<open>undefined\<close>, which is
  \<open>None\<close> here.
\<close>

definition selectBiome :: "Biome list \<Rightarrow> real \<Rightarrow> real \<Rightarrow> real \<Rightarrow> Biome option" where
  "selectBiome rules temp humid h =
     (let viableBiomes = filter (viable temp humid h) rules
      in case viableBiomes of
           first # rest \<Rightarrow> Some (foldl pick first rest)
         | [] \<Rightarrow> (case rules of [] \<Rightarrow> None | b # _ \<Rightarrow> Some b))"

text \<open>The constant table \<^verbatim>\<open>biomes\<close>, in source order.\<close>

definition Grassland :: Biome where
  "Grassland = \<lparr>name = ''Grassland'', temperatureRange = (0.25, 0.5),
     humidityRange = (0.45, 0.6), heightRange = None, color = ''#7CFC00'', weight = 2.0\<rparr>"

definition Tundra :: Biome where
  "Tundra = \<lparr>name = ''Tundra'', temperatureRange = (0.0, 0.25),
     humidityRange = (0.45, 1), heightRange = None, color = ''#D9FBFF'', weight = 1.0\<rparr>"

definition Forest :: Biome where
  "Forest = \<lparr>name = ''Forest'', temperatureRange = (0.25, 0.6),
     humidityRange = (0.6, 1.0), heightRange = None, color = ''#376137'', weight = 1.0\<rparr>"

definition Savanna :: Biome where
  "Savanna = \<lparr>name = ''Savanna'', temperatureRange = (0.5, 0.75),
     humidityRange = (0.0, 0.5), heightRange = None, color = ''#d7a100'', weight = 1.0\<rparr>"

definition Desert :: Biome where
  "Desert = \<lparr>name = ''Desert'', temperatureRange = (0.6, 1.0),
     humidityRange = (0.0, 0.3), heightRange = None, color = ''#EDC9AF'', weight = 1.0\<rparr>"

definition TropicalRainforest :: Biome where
  "TropicalRainforest = \<lparr>name = ''Tropical Rainforest'', temperatureRange = (0.75, 1.0),
     humidityRange = (0.5, 1.0), heightRange = None, color = ''#00853E'', weight = 1.0\<rparr>"

definition Beach :: Biome where
  "Beach = \<lparr>name = ''Beach'', temperatureRange = (0.5, 1.0),
     humidityRange = (0.3, 0.7), heightRange = Some (0.0, 0.3), color = ''#FFF5BA'',
     weight = 10\<rparr>"

definition Ocean :: Biome where
  "Ocean = \<lparr>name = ''Ocean'', temperatureRange = (0.0, 1.0),
     humidityRange = (0.0, 1.0), heightRange = Some (0.0, 0.15), color = ''#1E90FF'',
     weight = 100\<rparr>"

definition biomes :: "Biome list" where
  "biomes = [Grassland, Tundra, Forest, Savanna, Desert, TropicalRainforest, Beach, Ocean]"

lemmas biome_defs =
  Grassland_def Tundra_def Forest_def Savanna_def Desert_def TropicalRainforest_def
  Beach_def Ocean_def

text \<open>Closed intervals, as the specification words them.\<close>

definition contains :: "real \<times> real \<Rightarrow> real \<Rightarrow> bool" where
  "contains r v \<longleftrightarrow> fst r \<le> v \<and> v \<le> snd r"

section \<open>The overlap checker\<close>

text \<open>
  \<^verbatim>\<open>checkBiomes\<close> compares every pair \<open>i < j\<close> of the table.  The two local constants
  \<^verbatim>\<open>tempOverlap\<close> and \<^verbatim>\<open>humidOverlap\<close> are written out disjunct by disjunct.
\<close>

definition tempOverlap :: "Biome \<Rightarrow> Biome \<Rightarrow> bool" where
  "tempOverlap biome1 biome2 \<longleftrightarrow>
     (fst (temperatureRange biome2) \<ge> fst (temperatureRange biome1) \<and>
      fst (temperatureRange biome2) \<le> snd (temperatureRange biome1)) \<or>
     (snd (temperatureRange biome2) \<ge> fst (temperatureRange biome1) \<and>
      snd (temperatureRange biome2) \<le> snd (temperatureRange biome1)) \<or>
     (fst (temperatureRange biome1) \<ge> fst (temperatureRange biome2) \<and>
      fst (temperatureRange biome1) \<le> snd (temperatureRange biome2)) \<or>
     (snd (temperatureRange biome1) \<ge> fst (temperatureRange biome2) \<and>
      snd (temperatureRange biome1) \<le> snd (temperatureRange biome2))"

definition humidOverlap :: "Biome \<Rightarrow> Biome \<Rightarrow> bool" where
  "humidOverlap biome1 biome2 \<longleftrightarrow>
     (fst (humidityRange biome2) \<ge> fst (humidityRange biome1) \<and>
      fst (humidityRange biome2) \<le> snd (humidityRange biome1)) \<or>
     (snd (humidityRange biome2) \<ge> fst (humidityRange biome1) \<and>
      snd (humidityRange biome2) \<le> snd (humidityRange biome1)) \<or>
     (fst (humidityRange biome1) \<ge> fst (humidityRange biome2) \<and>
      fst (humidityRange biome1) \<le> snd (humidityRange biome2)) \<or>
     (snd (humidityRange biome1) \<ge> fst (humidityRange biome2) \<and>
      snd (humidityRange biome1) \<le> snd (humidityRange biome2))"

text \<open>
  The index pairs for which the warning is issued, in the order of the two loops, and the
  text handed to \<^verbatim>\<open>console.warn\<close> for a pair.  The function returns nothing; its
  observable result is the list of warnings.
\<close>

definition overlapPairs :: "Biome list \<Rightarrow> (nat \<times> nat) list" where
  "overlapPairs bs =
     [(i, j). i \<leftarrow> [0..<length bs], j \<leftarrow> [i + 1..<length bs],
        tempOverlap (bs ! i) (bs ! j) \<and> humidOverlap (bs ! i) (bs ! j)]"

definition overlapMessage :: "Biome \<Rightarrow> Biome \<Rightarrow> string" where
  "overlapMessage biome1 biome2 =
     ''Biome overlap detected: '' @ name biome1 @ '' and '' @ name biome2 @
     '' have overlapping temperature and humidity ranges, which may cause noisy terrain''"

definition checkBiomes :: "Biome list \<Rightarrow> string list" where
  "checkBiomes bs = map (\<lambda>(i, j). overlapMessage (bs ! i) (bs ! j)) (overlapPairs bs)"

text \<open>
  Inclusive interval overlap as the specification words it: either interval contains an
  endpoint of the other.
\<close>

definition intervalsOverlap :: "real \<times> real \<Rightarrow> real \<times> real \<Rightarrow> bool" where
  "intervalsOverlap r s \<longleftrightarrow>
     contains r (fst s) \<or> contains r (snd s) \<or> contains s (fst r) \<or> contains s (snd r)"

section \<open>The permutation table\<close>

text \<open>
  \<^verbatim>\<open>seededRandom\<close>, with \<^verbatim>\<open>Math.sin\<close> as the real sine and \<^verbatim>\<open>Math.floor\<close> as the floor.
\<close>

definition seededRandom :: "real \<Rightarrow> real" where
  "seededRandom s = (let s' = sin s * 10000 in s' - of_int \<lfloor>s'\<rfloor>)"

text \<open>
  The index \<^verbatim>\<open>j\<close> drawn at step \<open>i\<close> of the shuffle, and the destructuring swap
  \<^verbatim>\<open>[permutation[i], permutation[j]] = [permutation[j], permutation[i]]\<close>: both old values
  are read before either is written.  A list update outside the list changes nothing in
  HOL, where the array of the program would grow; \<open>draw_le\<close> below shows that the drawn
  index never leaves the range \<open>0..i\<close>.
\<close>

definition draw :: "real \<Rightarrow> nat \<Rightarrow> nat" where
  "draw seed i = nat \<lfloor>seededRandom (seed + real i) * (real i + 1)\<rfloor>"

definition swap :: "nat list \<Rightarrow> nat \<Rightarrow> nat \<Rightarrow> nat list" where
  "swap permutation i j = permutation[i := permutation ! j, j := permutation ! i]"

text \<open>The loop \<^verbatim>\<open>for (let i = 255; i > 0; i--)\<close>, from its current \<open>i\<close> down to 1.\<close>

fun shuffle :: "real \<Rightarrow> nat \<Rightarrow> nat list \<Rightarrow> nat list" where
  "shuffle seed 0 permutation = permutation"
| "shuffle seed (Suc k) permutation =
     shuffle seed k (swap permutation (Suc k) (draw seed (Suc k)))"

definition permutation :: "real \<Rightarrow> nat list" where
  "permutation seed = shuffle seed 255 [0..<256]"

text \<open>The doubled table \<^verbatim>\<open>p = [...permutation, ...permutation]\<close>.\<close>

definition pTable :: "real \<Rightarrow> nat list" where
  "pTable seed = permutation seed @ permutation seed"

section \<open>The noise function\<close>

definition fade :: "real \<Rightarrow> real" where
  "fade t = t * t * t * (t * (t * 6 - 15) + 10)"

definition lerp :: "real \<Rightarrow> real \<Rightarrow> real \<Rightarrow> real" where
  "lerp t a b = a + t * (b - a)"

definition grad :: "nat \<Rightarrow> real \<Rightarrow> real \<Rightarrow> real" where
  "grad hash x y =
     (let h = hash AND 3;
          u = (if h < 2 then x else y);
          v = (if h < 2 then y else x)
      in (if h AND 1 \<noteq> 0 then - u else u) + (if h AND 2 \<noteq> 0 then - v else v))"

text \<open>
  \<^verbatim>\<open>noise\<close> over the table \<open>p\<close>.  \<^verbatim>\<open>Math.floor(x) & 255\<close> keeps the low eight bits of
  the floor, in two's complement for a negative one.  The primed names are the
  parameters after \<^verbatim>\<open>x -= Math.floor(x)\<close> and \<^verbatim>\<open>y -= Math.floor(y)\<close>.
\<close>

definition noise :: "nat list \<Rightarrow> real \<Rightarrow> real \<Rightarrow> real" where
  "noise p x y =
     (let X = nat (\<lfloor>x\<rfloor> AND 255);
          Y = nat (\<lfloor>y\<rfloor> AND 255);
          x' = x - of_int \<lfloor>x\<rfloor>;
          y' = y - of_int \<lfloor>y\<rfloor>;
          u = fade x';
          v = fade y';
          a = p ! X + Y;
          b = p ! (X + 1) + Y
      in lerp v
           (lerp u (grad (p ! a) x' y') (grad (p ! b) (x' - 1) y'))
           (lerp u (grad (p ! (a + 1)) x' (y' - 1)) (grad (p ! (b + 1)) (x' - 1) (y' - 1))))"

section \<open>The noise map\<close>

text \<open>
  The octave loop of one cell.  The natural number counts the iterations still to run;
  \<open>amplitude\<close>, \<open>frequency\<close> and \<open>noiseValue\<close> are the loop's three variables.
\<close>

fun octaveLoop ::
  "nat list \<Rightarrow> real \<Rightarrow> real \<Rightarrow> real \<Rightarrow> real \<Rightarrow> real \<Rightarrow> real \<Rightarrow> real \<Rightarrow>
     nat \<Rightarrow> real \<Rightarrow> real \<Rightarrow> real \<Rightarrow> real" where
  "octaveLoop p x y offsetX offsetY scale persistence lacunarity 0
     amplitude frequency noiseValue = noiseValue"
| "octaveLoop p x y offsetX offsetY scale persistence lacunarity (Suc n)
     amplitude frequency noiseValue =
     (let sampleX = (x + offsetX) * scale * frequency;
          sampleY = (y + offsetY) * scale * frequency
      in octaveLoop p x y offsetX offsetY scale persistence lacunarity n
           (amplitude * persistence) (frequency * lacunarity)
           (noiseValue + noise p sampleX sampleY * amplitude))"

text \<open>One cell \<^verbatim>\<open>noiseMap[y][x]\<close>, and the two loops over the rows and the columns.\<close>

definition noiseCell ::
  "nat list \<Rightarrow> real \<Rightarrow> real \<Rightarrow> real \<Rightarrow> real \<Rightarrow> real \<Rightarrow> real \<Rightarrow> nat \<Rightarrow> nat \<Rightarrow> real" where
  "noiseCell p scale octaves persistence lacunarity offsetX offsetY y x =
     (octaveLoop p (real x) (real y) offsetX offsetY scale persistence lacunarity
        (nat \<lceil>octaves\<rceil>) 1 1 0 + 1) / 2"

definition generateNoiseMap ::
  "real \<Rightarrow> real \<Rightarrow> real \<Rightarrow> real \<Rightarrow> real \<Rightarrow> real \<Rightarrow> real \<Rightarrow> real \<Rightarrow> real \<Rightarrow> real list list" where
  "generateNoiseMap width height seed scale octaves persistence lacunarity offsetX offsetY =
     (let p = pTable seed
      in map (\<lambda>y. map (\<lambda>x. noiseCell p scale octaves persistence lacunarity offsetX offsetY y x)
                  [0..<nat \<lceil>width\<rceil>])
           [0..<nat \<lceil>height\<rceil>])"

section \<open>The terrain mesh\<close>

text \<open>
  Reading a property of \<^verbatim>\<open>undefined\<close> raises a \<^verbatim>\<open>TypeError\<close>; it is the only error the
  code of \<^verbatim>\<open>generateTerrainMesh\<close> can raise, and the function has no \<^verbatim>\<open>throw\<close> of its own.
\<close>

datatype error = TypeError

definition clamp :: "real \<Rightarrow> real \<Rightarrow> real \<Rightarrow> real" where
  "clamp num lower upper = min (max num lower) upper"

text \<open>
  Reading an array at a computed index: \<^verbatim>\<open>undefined\<close> (\<open>None\<close>) outside the array, and for
  an index that is no number (\<open>None\<close>).
\<close>

definition elemAt :: "'a list \<Rightarrow> int option \<Rightarrow> 'a option" where
  "elemAt xs i =
     (case i of
        None \<Rightarrow> None
      | Some k \<Rightarrow> if 0 \<le> k \<and> k < int (length xs) then Some (xs ! nat k) else None)"

text \<open>Results in loop order: all the values, or the error raised first.\<close>

fun collect :: "(error + 'v) list \<Rightarrow> error + 'v list" where
  "collect [] = Inr []"
| "collect (Inl e # results) = Inl e"
| "collect (Inr v # results) =
     (case collect results of Inl e \<Rightarrow> Inl e | Inr vs \<Rightarrow> Inr (v # vs))"

text \<open>
  The two auxiliary grids as \<^verbatim>\<open>generateNoiseMap\<close> returns them, before the modifier loop
  overwrites their cells.
\<close>

definition temperatureMap0 :: "real \<Rightarrow> real \<Rightarrow> real \<Rightarrow> real list list" where
  "temperatureMap0 seed offsetX offsetY =
     generateNoiseMap 256 256 seed 0.01 4 0.5 2.0 offsetX offsetY"

definition humidityMap0 :: "real \<Rightarrow> real \<Rightarrow> real \<Rightarrow> real list list" where
  "humidityMap0 seed offsetX offsetY =
     generateNoiseMap 256 256 seed 0.01 4 0.5 2.0 offsetX offsetY"

text \<open>
  The modifier loop.  Both grids are updated at the positions of \<^verbatim>\<open>temperatureMap\<close>; the
  two grids have the same shape, so every cell of each is rewritten.
\<close>

definition shiftMaps ::
  "real list list \<Rightarrow> real list list \<Rightarrow> real \<Rightarrow> real \<Rightarrow> real list list \<times> real list list" where
  "shiftMaps temperatureMap humidityMap tempModifier humidModifier =
     (map (\<lambda>z. map (\<lambda>x. clamp (temperatureMap ! z ! x + tempModifier) 0 1)
                 [0..<length (temperatureMap ! z)])
        [0..<length temperatureMap],
      map (\<lambda>z. map (\<lambda>x. clamp (humidityMap ! z ! x + humidModifier) 0 1)
                 [0..<length (temperatureMap ! z)])
        [0..<length temperatureMap])"

text \<open>
  \<^verbatim>\<open>Math.floor(z * 255 / segments)\<close>.  With \<open>segments = 0\<close> the quotient is \<^verbatim>\<open>NaN\<close> (for
  \<open>z = 0\<close>) or infinite, and so is its floor: no array index.
\<close>

definition mapIndex :: "nat \<Rightarrow> int \<Rightarrow> int option" where
  "mapIndex z segments =
     (if segments = 0 then None else Some \<lfloor>real z * 255 / real_of_int segments\<rfloor>)"

text \<open>
  One cell \<^verbatim>\<open>biomeMap[z][x]\<close>.  \<^verbatim>\<open>temperatureMap[tempZ][tempX]\<close> raises when the row is
  \<^verbatim>\<open>undefined\<close>; an \<^verbatim>\<open>undefined\<close> sample makes every comparison of the filter false, which
  leaves \<^verbatim>\<open>biomes[0]\<close>.  The height \<^verbatim>\<open>noiseMap[z][x]\<close> is read inside the filter, at a
  position that \<open>noiseMap\<close> always has (it has \<open>segments + 1\<close> rows and columns).
\<close>

definition biomeCell ::
  "Biome list \<Rightarrow> int \<Rightarrow> real list list \<Rightarrow> real list list \<Rightarrow> real list list \<Rightarrow>
     nat \<Rightarrow> nat \<Rightarrow> error + Biome option" where
  "biomeCell rules segments noiseMap temperatureMap humidityMap z x =
     (let tempZ = mapIndex z segments;
          tempX = mapIndex x segments
      in case elemAt temperatureMap tempZ of
           None \<Rightarrow> Inl TypeError
         | Some temperatureRow \<Rightarrow>
             (case elemAt humidityMap tempZ of
                None \<Rightarrow> Inl TypeError
              | Some humidityRow \<Rightarrow>
                  (case (elemAt temperatureRow tempX, elemAt humidityRow tempX) of
                     (Some temp, Some humid) \<Rightarrow>
                       Inr (selectBiome rules temp humid (noiseMap ! z ! x))
                   | _ \<Rightarrow> Inr (case rules of [] \<Rightarrow> None | b # _ \<Rightarrow> Some b))))"

text \<open>The loops \<^verbatim>\<open>for (let z = 0; z <= segments; z++)\<close> and the same over \<open>x\<close>.\<close>

definition biomeMapOf ::
  "Biome list \<Rightarrow> int \<Rightarrow> real list list \<Rightarrow> real list list \<Rightarrow> real list list \<Rightarrow>
     error + Biome option list list" where
  "biomeMapOf rules segments noiseMap temperatureMap humidityMap =
     collect (map (\<lambda>z. collect (map (\<lambda>x.
         biomeCell rules segments noiseMap temperatureMap humidityMap z x)
       [0..<nat (segments + 1)])) [0..<nat (segments + 1)])"

text \<open>
  Modelled from the spec: the vertex grid of \<^verbatim>\<open>three.PlaneGeometry\<close>, which is code of the
  three.js library and not under src/.  The specification (4.6) gives the vertex count
  \<open>(segments + 1)\<^sup>2\<close>: \<open>segments + 1\<close> vertices in each direction.  For a negative number of
  segments the grid has no vertex.
\<close>

definition planeVertexCount :: "int \<Rightarrow> nat" where
  "planeVertexCount segments = nat (segments + 1) * nat (segments + 1)"

text \<open>
  The mesh as far as the function's own code determines it: the size handed to the plane
  geometry, the number of vertices, the height written to each vertex by \<^verbatim>\<open>setY\<close>, and the
  colour buffer.  The normals (\<^verbatim>\<open>computeVertexNormals\<close>) and the material are the library's.
\<close>

record Mesh =
  geometrySize :: real
  vertexCount :: nat
  positionY :: "real list"
  colors :: "real list"

text \<open>
  The colour of one cell: \<^verbatim>\<open>biomeMap[y][x].color\<close> raises for an \<^verbatim>\<open>undefined\<close> biome.
  \<open>rgb\<close> stands for the constructor \<^verbatim>\<open>three.Color\<close>, from a colour string to its three
  components.
\<close>

definition cellColor :: "(string \<Rightarrow> real \<times> real \<times> real) \<Rightarrow> Biome option \<Rightarrow> error + real list" where
  "cellColor rgb cell =
     (case cell of
        None \<Rightarrow> Inl TypeError
      | Some biome \<Rightarrow> (case rgb (color biome) of (r, g, b) \<Rightarrow> Inr [r, g, b]))"

definition colorBuffer ::
  "(string \<Rightarrow> real \<times> real \<times> real) \<Rightarrow> Biome option list list \<Rightarrow> error + real list" where
  "colorBuffer rgb biomeMap =
     (case collect (map (cellColor rgb) (concat biomeMap)) of
        Inl e \<Rightarrow> Inl e
      | Inr cs \<Rightarrow> Inr (concat cs))"

text \<open>
  \<^verbatim>\<open>generateTerrainMesh\<close>, for an integer number of segments (\<open>size'\<close> is the parameter
  \<^verbatim>\<open>size\<close>).  The statements are in the
  order of the source: the plane geometry, the three noise maps, the modifier loop, the
  biome map, the heights, the colours.  The two \<^verbatim>\<open>console.log\<close> calls and the averages
  they print do not enter the result.
\<close>

definition generateTerrainMesh ::
  "(string \<Rightarrow> real \<times> real \<times> real) \<Rightarrow> real \<Rightarrow> int \<Rightarrow> real \<Rightarrow> real \<Rightarrow> real \<Rightarrow> real \<Rightarrow> real \<Rightarrow>
     real \<Rightarrow> real \<Rightarrow> real \<Rightarrow> real \<Rightarrow> real \<Rightarrow> error + Mesh" where
  "generateTerrainMesh rgb size' segments seed scale octaves persistence lacunarity amplitude
     offsetX offsetY tempModifier humidModifier =
     (let count = planeVertexCount segments;
          noiseMap = generateNoiseMap (real_of_int (segments + 1)) (real_of_int (segments + 1))
            seed scale octaves persistence lacunarity offsetX offsetY;
          (temperatureMap, humidityMap) =
            shiftMaps (temperatureMap0 seed offsetX offsetY) (humidityMap0 seed offsetX offsetY)
              tempModifier humidModifier
      in case biomeMapOf biomes segments noiseMap temperatureMap humidityMap of
           Inl e \<Rightarrow> Inl e
         | Inr biomeMap \<Rightarrow>
             (let heights = map (\<lambda>i.
                    let x = i mod nat (segments + 1);
                        z = i div nat (segments + 1)
                    in noiseMap ! z ! x * amplitude) [0..<count]
              in case colorBuffer rgb biomeMap of
                   Inl e \<Rightarrow> Inl e
                 | Inr cs \<Rightarrow>
                     Inr \<lparr>geometrySize = size', vertexCount = count, positionY = heights,
                          colors = cs\<rparr>))"

section \<open>Selection: maximum weight, earliest on ties\<close>

lemma foldl_pick_split:
  "\<exists>pre post. first # rest = pre @ foldl pick first rest # post \<and>
     (\<forall>r \<in> set pre. weight r < weight (foldl pick first rest)) \<and>
     (\<forall>r \<in> set post. weight r \<le> weight (foldl pick first rest))"
proof (induction rest rule: rev_induct)
  case Nil
  have "[first] = [] @ first # []" by simp
  then show ?case by fastforce
next
  case (snoc x xs)
  let ?m = "foldl pick first xs"
  from snoc obtain pre post where
    split: "first # xs = pre @ ?m # post" and
    before: "\<forall>r \<in> set pre. weight r < weight ?m" and
    after: "\<forall>r \<in> set post. weight r \<le> weight ?m"
    by blast
  show ?case
  proof (cases "weight x > weight ?m")
    case True
    then have res: "foldl pick first (xs @ [x]) = x" by (simp add: pick_def)
    have all: "\<forall>r \<in> set (first # xs). weight r < weight x"
      using split before after True by (subst split) fastforce
    have "first # xs @ [x] = (first # xs) @ x # []" by simp
    with all res show ?thesis by (metis empty_iff list.set(1))
  next
    case False
    then have res: "foldl pick first (xs @ [x]) = ?m" by (simp add: pick_def)
    have "first # xs @ [x] = pre @ ?m # (post @ [x])" using split by simp
    moreover have "\<forall>r \<in> set (post @ [x]). weight r \<le> weight ?m"
      using after False by auto
    ultimately show ?thesis using before res by metis
  qed
qed

lemma filter_split_lift:
  "filter P xs = pre @ m # post \<Longrightarrow>
   \<exists>us vs. xs = us @ m # vs \<and> P m \<and> filter P us = pre \<and> filter P vs = post"
proof (induction xs arbitrary: pre)
  case Nil
  then show ?case by simp
next
  case (Cons a xs)
  show ?case
  proof (cases "P a")
    case False
    with Cons.prems have "filter P xs = pre @ m # post" by simp
    from Cons.IH [OF this] obtain us vs where
      "xs = us @ m # vs" "P m" "filter P us = pre" "filter P vs = post" by blast
    with False have "a # xs = (a # us) @ m # vs \<and> P m \<and>
        filter P (a # us) = pre \<and> filter P vs = post" by simp
    then show ?thesis by blast
  next
    case True
    with Cons.prems have eq: "a # filter P xs = pre @ m # post" by simp
    show ?thesis
    proof (cases pre)
      case Nil
      with eq have "a = m" "filter P xs = post" by simp_all
      with True Nil have "a # xs = [] @ m # xs \<and> P m \<and>
          filter P [] = pre \<and> filter P xs = post" by simp
      then show ?thesis by blast
    next
      case (Cons c pre')
      with eq have c: "c = a" and rest: "filter P xs = pre' @ m # post" by simp_all
      from Cons.IH [OF rest] obtain us vs where
        "xs = us @ m # vs" "P m" "filter P us = pre'" "filter P vs = post" by blast
      with True c Cons have "a # xs = (a # us) @ m # vs \<and> P m \<and>
          filter P (a # us) = pre \<and> filter P vs = post" by simp
      then show ?thesis by blast
    qed
  qed
qed

text \<open>
  C2.  The viable rules are exactly those whose temperature and humidity ranges contain the
  sample inclusively and whose height range, when present, contains the height.  When at
  least one rule is viable, the selected rule is viable, no viable rule weighs more, and
  every viable rule before it in the sequence weighs strictly less: it is the earliest rule
  of maximum weight.
\<close>

theorem selectBiome_max_weight_earliest:
  "(viable temp humid h b \<longleftrightarrow>
      contains (temperatureRange b) temp \<and> contains (humidityRange b) humid \<and>
      (\<forall>r. heightRange b = Some r \<longrightarrow> contains r h)) \<and>
   ((\<exists>r \<in> set rules. viable temp humid h r) \<longrightarrow>
      (\<exists>pre m post. selectBiome rules temp humid h = Some m \<and> rules = pre @ m # post \<and>
         viable temp humid h m \<and>
         (\<forall>r \<in> set pre. viable temp humid h r \<longrightarrow> weight r < weight m) \<and>
         (\<forall>r \<in> set post. viable temp humid h r \<longrightarrow> weight r \<le> weight m)))"
proof (intro conjI impI)
  show "viable temp humid h b \<longleftrightarrow>
      contains (temperatureRange b) temp \<and> contains (humidityRange b) humid \<and>
      (\<forall>r. heightRange b = Some r \<longrightarrow> contains r h)"
    by (auto simp: viable_def contains_def split: option.splits)
next
  let ?P = "viable temp humid h"
  assume "\<exists>r \<in> set rules. ?P r"
  then have "filter ?P rules \<noteq> []" by (simp add: filter_empty_conv)
  then obtain first rest where fr: "filter ?P rules = first # rest"
    by (cases "filter ?P rules") auto
  let ?m = "foldl pick first rest"
  have sel: "selectBiome rules temp humid h = Some ?m"
    by (simp add: selectBiome_def fr)
  from foldl_pick_split [of first rest] obtain pre post where
    split: "first # rest = pre @ ?m # post" and
    before: "\<forall>r \<in> set pre. weight r < weight ?m" and
    after: "\<forall>r \<in> set post. weight r \<le> weight ?m"
    by blast
  from filter_split_lift [of ?P rules pre ?m post] fr split obtain us vs where
    rules: "rules = us @ ?m # vs" and m: "?P ?m" and
    us: "filter ?P us = pre" and vs: "filter ?P vs = post"
    by auto
  have "\<forall>r \<in> set us. ?P r \<longrightarrow> weight r < weight ?m"
    using before us by auto
  moreover have "\<forall>r \<in> set vs. ?P r \<longrightarrow> weight r \<le> weight ?m"
    using after vs by auto
  ultimately show "\<exists>pre m post. selectBiome rules temp humid h = Some m \<and>
      rules = pre @ m # post \<and> ?P m \<and>
      (\<forall>r \<in> set pre. ?P r \<longrightarrow> weight r < weight m) \<and>
      (\<forall>r \<in> set post. ?P r \<longrightarrow> weight r \<le> weight m)"
    using sel rules m by blast
qed

text \<open>
  At temperature 0.6, humidity 0.3 and height 0.5 the table's viable rules are Savanna and
  Desert, both of weight 1; the earlier one, Savanna, is selected.
\<close>

theorem selectBiome_max_weight_earliest_witness:
  "(\<exists>r \<in> set biomes. viable 0.6 0.3 0.5 r) \<and>
   (\<exists>pre m post. selectBiome biomes 0.6 0.3 0.5 = Some m \<and> biomes = pre @ m # post \<and>
      viable 0.6 0.3 0.5 m \<and>
      (\<forall>r \<in> set pre. viable 0.6 0.3 0.5 r \<longrightarrow> weight r < weight m) \<and>
      (\<forall>r \<in> set post. viable 0.6 0.3 0.5 r \<longrightarrow> weight r \<le> weight m)) \<and>
   selectBiome biomes 0.6 0.3 0.5 = Some Savanna \<and>
   filter (viable 0.6 0.3 0.5) biomes = [Savanna, Desert]"
proof -
  have h: "\<exists>r \<in> set biomes. viable 0.6 0.3 0.5 r"
    by (simp add: biomes_def viable_def biome_defs)
  have f: "filter (viable 0.6 0.3 0.5) biomes = [Savanna, Desert]"
    by (simp add: biomes_def viable_def biome_defs)
  have s: "selectBiome biomes 0.6 0.3 0.5 = Some Savanna"
    unfolding selectBiome_def Let_def f by (simp add: pick_def biome_defs)
  from h selectBiome_max_weight_earliest [of "0.6" "0.3" "0.5" Savanna biomes, THEN conjunct2]
  show ?thesis using f s by blast
qed

section \<open>Selection: the fallback\<close>

lemma selectBiome_in_rules:
  assumes ne: "rules \<noteq> []"
  shows "\<exists>b \<in> set rules. selectBiome rules temp humid h = Some b"
proof (cases "\<exists>r \<in> set rules. viable temp humid h r")
  case True
  let ?P = "viable temp humid h"
  from True have "filter ?P rules \<noteq> []" by (simp add: filter_empty_conv)
  then obtain first rest where fr: "filter ?P rules = first # rest"
    by (cases "filter ?P rules") auto
  from foldl_pick_split [of first rest] obtain pre post where
    "first # rest = pre @ foldl pick first rest # post" by blast
  with filter_split_lift [of ?P rules pre "foldl pick first rest" post] fr
  obtain us vs where "rules = us @ foldl pick first rest # vs" by auto
  moreover have "selectBiome rules temp humid h = Some (foldl pick first rest)"
    by (simp add: selectBiome_def fr)
  ultimately show ?thesis by auto
next
  case False
  then have "filter (viable temp humid h) rules = []" by (simp add: filter_empty_conv)
  with ne show ?thesis by (cases rules) (simp_all add: selectBiome_def)
qed

text \<open>
  C3.  For a non-empty rule sequence of which no rule is viable for the sample, the selection
  is the first rule of the sequence; and for every non-empty rule sequence the selection is
  a rule of the sequence (never \<^verbatim>\<open>undefined\<close>), so every sample resolves to one biome.
\<close>

theorem selectBiome_fallback_first:
  "rules \<noteq> [] \<Longrightarrow>
   ((\<forall>r \<in> set rules. \<not> viable temp humid h r) \<longrightarrow>
       selectBiome rules temp humid h = Some (hd rules)) \<and>
   (\<exists>b \<in> set rules. selectBiome rules temp humid h = Some b)"
proof (intro conjI impI)
  assume ne: "rules \<noteq> []" and none: "\<forall>r \<in> set rules. \<not> viable temp humid h r"
  then have "filter (viable temp humid h) rules = []" by (simp add: filter_empty_conv)
  with ne show "selectBiome rules temp humid h = Some (hd rules)"
    by (cases rules) (simp_all add: selectBiome_def)
next
  assume "rules \<noteq> []"
  then show "\<exists>b \<in> set rules. selectBiome rules temp humid h = Some b"
    by (rule selectBiome_in_rules)
qed

text \<open>
  At temperature 0.1 and humidity 0.1 with height 0.9 no rule of the table is viable, and
  the selection is Grassland, the first entry.
\<close>

theorem selectBiome_fallback_first_witness:
  "biomes \<noteq> [] \<and> \<not> (\<exists>r \<in> set biomes. viable 0.1 0.1 0.9 r) \<and>
   selectBiome biomes 0.1 0.1 0.9 = Some (hd biomes) \<and> hd biomes = Grassland \<and>
   (\<exists>b \<in> set biomes. selectBiome biomes 0.1 0.1 0.9 = Some b)"
proof -
  have ne: "biomes \<noteq> []" by (simp add: biomes_def)
  have none: "\<forall>r \<in> set biomes. \<not> viable 0.1 0.1 0.9 r"
    by (simp add: biomes_def viable_def biome_defs)
  have "hd biomes = Grassland" by (simp add: biomes_def)
  with ne none selectBiome_fallback_first [of biomes "0.1" "0.1" "0.9"] show ?thesis by blast
qed

section \<open>The overlap checker reports exactly the overlapping pairs\<close>

lemma distinct_concat_tagged:
  "distinct xs \<Longrightarrow> (\<forall>x \<in> set xs. distinct (f x) \<and> (\<forall>p \<in> set (f x). tag p = x)) \<Longrightarrow>
   distinct (concat (map f xs))"
proof (induction xs)
  case Nil
  then show ?case by simp
next
  case (Cons a xs)
  then have "distinct (concat (map f xs))" by simp
  moreover have "distinct (f a)" using Cons.prems by simp
  moreover have "set (f a) \<inter> set (concat (map f xs)) = {}"
  proof (rule ccontr)
    assume "set (f a) \<inter> set (concat (map f xs)) \<noteq> {}"
    then obtain p x where "p \<in> set (f a)" "x \<in> set xs" "p \<in> set (f x)" by auto
    with Cons.prems have "tag p = a" "tag p = x" "a \<notin> set xs" by auto
    with \<open>x \<in> set xs\<close> show False by simp
  qed
  ultimately show ?case by simp
qed

lemma overlapPairs_iff:
  "(i, j) \<in> set (overlapPairs bs) \<longleftrightarrow>
     i < j \<and> j < length bs \<and>
     intervalsOverlap (temperatureRange (bs ! i)) (temperatureRange (bs ! j)) \<and>
     intervalsOverlap (humidityRange (bs ! i)) (humidityRange (bs ! j))"
  by (auto simp: overlapPairs_def tempOverlap_def humidOverlap_def intervalsOverlap_def
      contains_def)

lemma overlapPairs_distinct: "distinct (overlapPairs bs)"
  unfolding overlapPairs_def
  by (rule distinct_concat_tagged [where tag = fst], simp, intro ballI conjI,
      rule distinct_concat_tagged [where tag = snd]) auto

lemma overlapPairs_heightRange:
  "overlapPairs (map (\<lambda>b. b\<lparr>heightRange := f b\<rparr>) bs) = overlapPairs bs"
  unfolding overlapPairs_def
  by (auto simp: tempOverlap_def humidOverlap_def intro!: arg_cong [where f = concat] map_cong)

text \<open>
  C8.  A pair \<open>(i, j)\<close> of table positions is reported exactly when \<open>i < j\<close> and both the
  temperature ranges and the humidity ranges overlap inclusively (either interval contains
  an endpoint of the other); each pair is reported once, with one warning per pair;
  replacing the height ranges of the biomes by any others leaves the report unchanged; and
  two biomes with temperature ranges [0, 0.5] and [0.3, 0.8] and humidity ranges [0, 1]
  give exactly one reported pair.
\<close>

theorem checkBiomes_reports_overlaps:
  "((i, j) \<in> set (overlapPairs bs) \<longleftrightarrow>
      i < j \<and> j < length bs \<and>
      intervalsOverlap (temperatureRange (bs ! i)) (temperatureRange (bs ! j)) \<and>
      intervalsOverlap (humidityRange (bs ! i)) (humidityRange (bs ! j))) \<and>
   distinct (overlapPairs bs) \<and>
   length (checkBiomes bs) = length (overlapPairs bs) \<and>
   overlapPairs (map (\<lambda>b. b\<lparr>heightRange := f b\<rparr>) bs) = overlapPairs bs \<and>
   (temperatureRange b1 = (0, 0.5) \<and> temperatureRange b2 = (0.3, 0.8) \<and>
    humidityRange b1 = (0, 1) \<and> humidityRange b2 = (0, 1) \<longrightarrow>
      overlapPairs [b1, b2] = [(0, 1)] \<and> length (checkBiomes [b1, b2]) = 1)"
proof (intro conjI impI)
  show "(i, j) \<in> set (overlapPairs bs) \<longleftrightarrow>
      i < j \<and> j < length bs \<and>
      intervalsOverlap (temperatureRange (bs ! i)) (temperatureRange (bs ! j)) \<and>
      intervalsOverlap (humidityRange (bs ! i)) (humidityRange (bs ! j))"
    by (rule overlapPairs_iff)
  show "distinct (overlapPairs bs)" by (rule overlapPairs_distinct)
  show "length (checkBiomes bs) = length (overlapPairs bs)" by (simp add: checkBiomes_def)
  show "overlapPairs (map (\<lambda>b. b\<lparr>heightRange := f b\<rparr>) bs) = overlapPairs bs"
    by (rule overlapPairs_heightRange)
next
  assume r: "temperatureRange b1 = (0, 0.5) \<and> temperatureRange b2 = (0.3, 0.8) \<and>
    humidityRange b1 = (0, 1) \<and> humidityRange b2 = (0, 1)"
  then show "overlapPairs [b1, b2] = [(0, 1)]"
    by (simp add: overlapPairs_def tempOverlap_def humidOverlap_def)
  then show "length (checkBiomes [b1, b2]) = 1" by (simp add: checkBiomes_def)
qed

text \<open>
  The table's Savanna (temperature [0.5, 0.75], humidity [0, 0.5]) and Desert (temperature
  [0.6, 1], humidity [0, 0.3]) are reported as the pair of positions 3 and 4; Grassland and
  Desert (positions 0 and 4), whose temperature ranges are disjoint, are not; and the two
  biomes of the specification's example give one warning.
\<close>

theorem checkBiomes_reports_overlaps_witness:
  "(3, 4) \<in> set (overlapPairs biomes) \<and> (0, 4) \<notin> set (overlapPairs biomes) \<and>
   length (checkBiomes biomes) = 18 \<and>
   temperatureRange (Grassland\<lparr>temperatureRange := (0, 0.5), humidityRange := (0, 1)\<rparr>)
     = (0, 0.5) \<and>
   overlapPairs [Grassland\<lparr>temperatureRange := (0, 0.5), humidityRange := (0, 1)\<rparr>,
                 Forest\<lparr>temperatureRange := (0.3, 0.8), humidityRange := (0, 1)\<rparr>]
     = [(0, 1)] \<and>
   length (checkBiomes
     [Grassland\<lparr>temperatureRange := (0, 0.5), humidityRange := (0, 1)\<rparr>,
      Forest\<lparr>temperatureRange := (0.3, 0.8), humidityRange := (0, 1)\<rparr>]) = 1"
proof -
  let ?b1 = "Grassland\<lparr>temperatureRange := (0, 0.5), humidityRange := (0, 1)\<rparr>"
  let ?b2 = "Forest\<lparr>temperatureRange := (0.3, 0.8), humidityRange := (0, 1)\<rparr>"
  note main = checkBiomes_reports_overlaps
  have a: "(3, 4) \<in> set (overlapPairs biomes)"
    using main [of 3 4 biomes, THEN conjunct1]
    by (simp add: biomes_def biome_defs intervalsOverlap_def contains_def)
  have b: "(0, 4) \<notin> set (overlapPairs biomes)"
    using main [of 0 4 biomes, THEN conjunct1]
    by (simp add: biomes_def biome_defs intervalsOverlap_def contains_def)
  have c: "length (checkBiomes biomes) = 18"
    by (simp add: checkBiomes_def overlapPairs_def biomes_def tempOverlap_def
        humidOverlap_def biome_defs)
  have d: "temperatureRange ?b1 = (0, 0.5) \<and> temperatureRange ?b2 = (0.3, 0.8) \<and>
      humidityRange ?b1 = (0, 1) \<and> humidityRange ?b2 = (0, 1)"
    by simp
  from main [of 0 0 "[]" undefined ?b1 ?b2] d
  have "overlapPairs [?b1, ?b2] = [(0, 1)] \<and> length (checkBiomes [?b1, ?b2]) = 1"
    by blast
  with a b c d show ?thesis by blast
qed

section \<open>The permutation table is a permutation\<close>

lemma seededRandom_range: "0 \<le> seededRandom s \<and> seededRandom s < 1"
  unfolding seededRandom_def Let_def by linarith

lemma draw_le: "draw seed i \<le> i"
proof -
  let ?r = "seededRandom (seed + real i)"
  have r: "0 \<le> ?r" "?r < 1" using seededRandom_range by auto
  then have "?r * (real i + 1) < real i + 1" by (simp add: mult_less_cancel_right1)
  then have "\<lfloor>?r * (real i + 1)\<rfloor> < int i + 1" by (subst floor_less_iff) simp
  then show ?thesis unfolding draw_def by linarith
qed

lemma swap_props:
  "i < length xs \<Longrightarrow> j < length xs \<Longrightarrow>
   length (swap xs i j) = length xs \<and> mset (swap xs i j) = mset xs"
  unfolding swap_def by (simp add: mset_swap)

lemma shuffle_props:
  "k < length xs \<Longrightarrow>
   length (shuffle seed k xs) = length xs \<and> mset (shuffle seed k xs) = mset xs"
proof (induction k arbitrary: xs)
  case 0
  then show ?case by simp
next
  case (Suc k)
  have j: "draw seed (Suc k) < length xs"
    using draw_le [of seed "Suc k"] Suc.prems by linarith
  from swap_props [OF Suc.prems j] Suc.IH [of "swap xs (Suc k) (draw seed (Suc k))"] Suc.prems
  show ?case by simp
qed

lemma permutation_props:
  "length (permutation seed) = 256 \<and> mset (permutation seed) = mset [0..<256]"
  unfolding permutation_def using shuffle_props [of 255 "[0..<256]" seed] by simp

text \<open>
  Every table read of \<open>noise\<close> is inside the doubled table: \<open>X\<close> and \<open>Y\<close> are below 256,
  and so is every entry.
\<close>

lemma low_byte: "nat (k AND 255) < 256" for k :: int
proof -
  have "k AND 255 < 256" by (rule AND_upper2'') simp_all
  then show ?thesis by linarith
qed

lemma pTable_entry: "i < 512 \<Longrightarrow> pTable seed ! i < 256"
proof -
  assume i: "i < 512"
  have len: "length (pTable seed) = 512"
    using permutation_props [of seed] by (simp add: pTable_def)
  have "set (permutation seed) = set [0..<256]"
    by (rule mset_eq_setD) (rule permutation_props [THEN conjunct2])
  then have s: "set (permutation seed) = {0..<256}" by simp
  have "pTable seed ! i \<in> set (pTable seed)" using i len by simp
  then show ?thesis using s by (auto simp: pTable_def)
qed

lemma noise_reads_in_range:
  fixes x y seed :: real
  defines "X \<equiv> nat (\<lfloor>x\<rfloor> AND 255)" and "Y \<equiv> nat (\<lfloor>y\<rfloor> AND 255)"
  defines "a \<equiv> pTable seed ! X + Y" and "b \<equiv> pTable seed ! (X + 1) + Y"
  shows "X + 1 < length (pTable seed) \<and> a + 1 < length (pTable seed) \<and>
    b + 1 < length (pTable seed)"
proof -
  have len: "length (pTable seed) = 512"
    using permutation_props [of seed] by (simp add: pTable_def)
  have X: "X < 256" and Y: "Y < 256" unfolding X_def Y_def by (rule low_byte)+
  have "pTable seed ! X < 256" "pTable seed ! (X + 1) < 256"
    using X by (auto intro: pTable_entry)
  then show ?thesis using X Y len unfolding a_def b_def by simp
qed



section \<open>The range of the noise map\<close>

lemma grad_y0: "grad hash x 0 = x \<or> grad hash x 0 = - x"
  by (auto simp: grad_def Let_def)


lemma noise_y0:
  "noise p (1/4) 0 =
     lerp (fade (1/4)) (grad (p ! (p ! 0)) (1/4) 0) (grad (p ! (p ! 1)) (- 3/4) 0)"
  by (simp add: noise_def Let_def fade_def lerp_def)

lemma fade_quarter: "fade (1/4) = 53/512"
  by (simp add: fade_def)

text \<open>
  At the sample point (1/4, 0) the noise is one of \<open>\<plusminus>75/512\<close> and \<open>\<plusminus>309/1024\<close>, whatever
  the table holds: the two gradients that count there are \<open>\<plusminus>1/4\<close> and \<open>\<plusminus>3/4\<close>.
\<close>

lemma noise_quarter_bounds: "75/512 \<le> \<bar>noise p (1/4) 0\<bar>"
proof -
  define g1 where "g1 = grad (p ! (p ! 0)) (1/4) 0"
  define g2 where "g2 = grad (p ! (p ! 1)) (- 3/4) 0"
  have n: "noise p (1/4) 0 = g1 + 53/512 * (g2 - g1)"
    by (simp only: noise_y0 fade_quarter lerp_def g1_def g2_def)
  have "g1 = 1/4 \<or> g1 = - (1/4)" unfolding g1_def by (rule grad_y0)
  moreover have "g2 = - 3/4 \<or> g2 = - (- 3/4)" unfolding g2_def by (rule grad_y0)
  ultimately consider "g1 = 1/4" "g2 = - 3/4" | "g1 = 1/4" "g2 = 3/4"
    | "g1 = - (1/4)" "g2 = - 3/4" | "g1 = - (1/4)" "g2 = 3/4"
    by auto
  then show ?thesis unfolding n by cases (hypsubst, simp)+
qed


lemma octaveLoop_same_point:
  "octaveLoop p x y offsetX offsetY scale 1 1 n amplitude frequency noiseValue =
     noiseValue + real n *
       (noise p ((x + offsetX) * scale * frequency) ((y + offsetY) * scale * frequency)
          * amplitude)"
  by (induction n arbitrary: noiseValue) (simp_all add: Let_def algebra_simps)


text \<open>
  One octave stays in [-1, 1]: each of the four gradients is bounded by the distance of
  the sample from its corner, and the interpolation weights \<open>fade\<close> are in [0, 1].
\<close>

lemma fade_bounds:
  assumes "0 \<le> t" "t \<le> 1"
  shows "0 \<le> fade t \<and> fade t \<le> 1"
proof
  have "t * (t * 6 - 15) + 10 = 6 * (t - 5/4)\<^sup>2 + 5/8"
    by (simp add: power2_eq_square algebra_simps)
  then have "0 \<le> t * (t * 6 - 15) + 10" by simp
  then show "0 \<le> fade t" unfolding fade_def using assms(1) by simp
  have "1 - fade t = (1 - t) * (1 - t) * (1 - t) * (6 * t * t + 3 * t + 1)"
    by (simp add: fade_def algebra_simps)
  moreover have "0 \<le> (1 - t) * (1 - t) * (1 - t) * (6 * t * t + 3 * t + 1)"
    using assms by (intro mult_nonneg_nonneg add_nonneg_nonneg) simp_all
  ultimately show "fade t \<le> 1" by linarith
qed

lemma blend_half:
  assumes "0 \<le> t" "t \<le> 1"
  shows "(1 - fade t) * t + fade t * (1 - t) \<le> 1/2"
proof -
  have "1/2 - ((1 - fade t) * t + fade t * (1 - t)) =
      2 * (1/2 - t)\<^sup>2 * (6 * (t * (1 - t))\<^sup>2 + 2 * (t * (1 - t)) + 1)"
    by (simp add: fade_def power2_eq_square algebra_simps)
  moreover have "0 \<le> 2 * (1/2 - t)\<^sup>2 * (6 * (t * (1 - t))\<^sup>2 + 2 * (t * (1 - t)) + 1)"
    using assms by (intro mult_nonneg_nonneg add_nonneg_nonneg) simp_all
  ultimately show ?thesis by linarith
qed

lemma grad_abs: "\<bar>grad hash x y\<bar> \<le> \<bar>x\<bar> + \<bar>y\<bar>"
  by (auto simp: grad_def Let_def)

lemma lerp_abs:
  assumes "0 \<le> t" "t \<le> 1" "\<bar>a\<bar> \<le> A" "\<bar>b\<bar> \<le> B"
  shows "\<bar>lerp t a b\<bar> \<le> (1 - t) * A + t * B"
proof -
  have "lerp t a b = (1 - t) * a + t * b" by (simp add: lerp_def algebra_simps)
  then have "\<bar>lerp t a b\<bar> \<le> \<bar>(1 - t) * a\<bar> + \<bar>t * b\<bar>" by simp
  also have "\<dots> = (1 - t) * \<bar>a\<bar> + t * \<bar>b\<bar>" using assms(1,2) by (simp add: abs_mult)
  also have "\<dots> \<le> (1 - t) * A + t * B"
    using assms by (intro add_mono mult_left_mono) simp_all
  finally show ?thesis .
qed

lemma noise_abs_le_1: "\<bar>noise p x y\<bar> \<le> 1"
proof -
  define xf where "xf = x - of_int \<lfloor>x\<rfloor>"
  define yf where "yf = y - of_int \<lfloor>y\<rfloor>"
  have xf: "0 \<le> xf" "xf \<le> 1" and yf: "0 \<le> yf" "yf \<le> 1"
    unfolding xf_def yf_def by linarith+
  define u where "u = fade xf"
  define v where "v = fade yf"
  have u: "0 \<le> u" "u \<le> 1" unfolding u_def using fade_bounds [OF xf] by auto
  have v: "0 \<le> v" "v \<le> 1" unfolding v_def using fade_bounds [OF yf] by auto
  obtain g00 g10 g01 g11 where
    n: "noise p x y = lerp v (lerp u g00 g10) (lerp u g01 g11)" and
    g00: "\<bar>g00\<bar> \<le> xf + yf" and g10: "\<bar>g10\<bar> \<le> (1 - xf) + yf" and
    g01: "\<bar>g01\<bar> \<le> xf + (1 - yf)" and g11: "\<bar>g11\<bar> \<le> (1 - xf) + (1 - yf)"
  proof -
    let ?X = "nat (\<lfloor>x\<rfloor> AND 255)" and ?Y = "nat (\<lfloor>y\<rfloor> AND 255)"
    let ?a = "p ! ?X + ?Y" and ?b = "p ! (?X + 1) + ?Y"
    show thesis
    proof (rule that)
      show "noise p x y = lerp v (lerp u (grad (p ! ?a) xf yf) (grad (p ! ?b) (xf - 1) yf))
          (lerp u (grad (p ! (?a + 1)) xf (yf - 1)) (grad (p ! (?b + 1)) (xf - 1) (yf - 1)))"
        by (simp add: noise_def Let_def u_def v_def xf_def yf_def)
      show "\<bar>grad (p ! ?a) xf yf\<bar> \<le> xf + yf"
        using grad_abs [of "p ! ?a" xf yf] xf yf by simp
      show "\<bar>grad (p ! ?b) (xf - 1) yf\<bar> \<le> (1 - xf) + yf"
        using grad_abs [of "p ! ?b" "xf - 1" yf] xf yf by simp
      show "\<bar>grad (p ! (?a + 1)) xf (yf - 1)\<bar> \<le> xf + (1 - yf)"
        using grad_abs [of "p ! (?a + 1)" xf "yf - 1"] xf yf by simp
      show "\<bar>grad (p ! (?b + 1)) (xf - 1) (yf - 1)\<bar> \<le> (1 - xf) + (1 - yf)"
        using grad_abs [of "p ! (?b + 1)" "xf - 1" "yf - 1"] xf yf by simp
    qed
  qed
  have lo: "\<bar>lerp u g00 g10\<bar> \<le> (1 - u) * (xf + yf) + u * ((1 - xf) + yf)"
    by (rule lerp_abs [OF u g00 g10])
  have hi: "\<bar>lerp u g01 g11\<bar> \<le> (1 - u) * (xf + (1 - yf)) + u * ((1 - xf) + (1 - yf))"
    by (rule lerp_abs [OF u g01 g11])
  have "\<bar>noise p x y\<bar> \<le>
      (1 - v) * ((1 - u) * (xf + yf) + u * ((1 - xf) + yf)) +
      v * ((1 - u) * (xf + (1 - yf)) + u * ((1 - xf) + (1 - yf)))"
    unfolding n by (rule lerp_abs [OF v lo hi])
  also have "\<dots> = ((1 - u) * xf + u * (1 - xf)) + ((1 - v) * yf + v * (1 - yf))"
    by (simp add: algebra_simps)
  also have "\<dots> \<le> 1/2 + 1/2"
    unfolding u_def v_def by (intro add_mono blend_half xf yf)
  finally show ?thesis by simp
qed


text \<open>
  Several octaves are bounded by the sum of their amplitudes
  \<open>1 + \<bar>persistence\<bar> + \<bar>persistence\<bar>\<^sup>2 + \<dots>\<close>, not by 1; every cell is within half that sum of
  1/2, and within [0, 1] when at most one octave runs.
\<close>

lemma geometric_step: "(\<Sum>k<Suc n. r ^ k) = 1 + r * (\<Sum>k<n. r ^ k)" for r :: real
  unfolding sum.lessThan_Suc_shift by (simp add: sum_distrib_left)

lemma octaveLoop_bound:
  "\<bar>octaveLoop p x y offsetX offsetY scale persistence lacunarity n amplitude frequency
      noiseValue - noiseValue\<bar> \<le> \<bar>amplitude\<bar> * (\<Sum>k<n. \<bar>persistence\<bar> ^ k)"
proof (induction n arbitrary: amplitude frequency noiseValue)
  case 0
  then show ?case by simp
next
  case (Suc n)
  let ?s = "noise p ((x + offsetX) * scale * frequency) ((y + offsetY) * scale * frequency)"
  let ?r = "octaveLoop p x y offsetX offsetY scale persistence lacunarity n
      (amplitude * persistence) (frequency * lacunarity) (noiseValue + ?s * amplitude)"
  let ?S = "\<Sum>k<n. \<bar>persistence\<bar> ^ k"
  have step: "octaveLoop p x y offsetX offsetY scale persistence lacunarity (Suc n)
      amplitude frequency noiseValue = ?r" by (simp add: Let_def)
  have "\<bar>?r - (noiseValue + ?s * amplitude)\<bar> \<le> \<bar>amplitude * persistence\<bar> * ?S"
    by (rule Suc.IH)
  moreover have "\<bar>?s * amplitude\<bar> \<le> \<bar>amplitude\<bar>"
    using noise_abs_le_1 [of p "(x + offsetX) * scale * frequency"
        "(y + offsetY) * scale * frequency"]
    by (simp add: abs_mult mult_left_le_one_le)
  ultimately have "\<bar>?r - noiseValue\<bar> \<le> \<bar>amplitude\<bar> + \<bar>amplitude * persistence\<bar> * ?S"
    by linarith
  also have "\<dots> = \<bar>amplitude\<bar> * (\<Sum>k<Suc n. \<bar>persistence\<bar> ^ k)"
    unfolding geometric_step by (simp add: abs_mult algebra_simps)
  finally show ?case unfolding step .
qed

lemma generateNoiseMap_cell_bound:
  assumes "row \<in> set (generateNoiseMap width height seed scale octaves persistence lacunarity
      offsetX offsetY)" "c \<in> set row"
  shows "\<bar>c - 1/2\<bar> \<le> (\<Sum>k<nat \<lceil>octaves\<rceil>. \<bar>persistence\<bar> ^ k) / 2"
proof -
  from assms obtain y x where
    c: "c = noiseCell (pTable seed) scale octaves persistence lacunarity offsetX offsetY y x"
    by (auto simp: generateNoiseMap_def Let_def)
  show ?thesis
    unfolding c noiseCell_def
    using octaveLoop_bound [of "pTable seed" "real x" "real y" offsetX offsetY scale persistence
        lacunarity "nat \<lceil>octaves\<rceil>" 1 1 0]
    by (simp add: field_simps)
qed

lemma generateNoiseMap_one_octave_unit:
  assumes "octaves \<le> 1"
    "row \<in> set (generateNoiseMap width height seed scale octaves persistence lacunarity
      offsetX offsetY)" "c \<in> set row"
  shows "0 \<le> c \<and> c \<le> 1"
proof -
  have "nat \<lceil>octaves\<rceil> \<le> 1" using assms(1) by (simp add: ceiling_le_iff nat_le_iff)
  then have "nat \<lceil>octaves\<rceil> = 0 \<or> nat \<lceil>octaves\<rceil> = 1" by linarith
  then have "(\<Sum>k<nat \<lceil>octaves\<rceil>. \<bar>persistence\<bar> ^ k) \<le> 1" by auto
  with generateNoiseMap_cell_bound [OF assms(2,3)] show ?thesis by linarith
qed

text \<open>
  C1.  The call \<^verbatim>\<open>generateNoiseMap(1, 1, 42, 1, 8, 1, 1, 0.25, 0)\<close> returns a grid of one
  cell, and the cell is not in [0, 1]: its eight octaves all sample the point (1/4, 0) with
  amplitude 1, the sum is eight times a noise value of magnitude at least 75/512, and
  \<open>(sum + 1) / 2\<close> is then above 1 or below 0.
\<close>

theorem generateNoiseMap_cell_outside_unit:
  "\<exists>c. generateNoiseMap 1 1 42 1 8 1 1 (1/4) 0 = [[c]] \<and> \<not> (0 \<le> c \<and> c \<le> 1)"
proof -
  let ?n = "noise (pTable 42) (1/4) 0"
  have "generateNoiseMap 1 1 42 1 8 1 1 (1/4) 0 = [[(8 * ?n + 1) / 2]]"
    by (simp add: generateNoiseMap_def noiseCell_def octaveLoop_same_point)
  moreover have "\<not> (0 \<le> (8 * ?n + 1) / 2 \<and> (8 * ?n + 1) / 2 \<le> 1)"
    using noise_quarter_bounds [of "pTable 42"] by (simp add: abs_if split: if_splits)
  ultimately show ?thesis by blast
qed

section \<open>Octave counts and the scale zero\<close>

lemma generateNoiseMap_shape:
  "length (generateNoiseMap width height seed scale octaves persistence lacunarity
     offsetX offsetY) = nat \<lceil>height\<rceil> \<and>
   (\<forall>row \<in> set (generateNoiseMap width height seed scale octaves persistence lacunarity
     offsetX offsetY). length row = nat \<lceil>width\<rceil>)"
  by (auto simp: generateNoiseMap_def Let_def)





section \<open>Determinism\<close>




section \<open>The temperature and humidity grids\<close>

lemma map_index_row: "map (\<lambda>x. f (r ! x)) [0..<length r] = map f r"
  by (rule nth_equalityI) simp_all

lemma map_index_rows:
  "map (\<lambda>z. map (\<lambda>x. f (g ! z ! x)) [0..<length (g ! z)]) [0..<length g] = map (map f) g"
  by (rule nth_equalityI) (simp_all add: map_index_row)

text \<open>
  C10.  In \<^verbatim>\<open>generateTerrainMesh\<close> the temperature grid and the humidity grid come from two
  calls \<^verbatim>\<open>generateNoiseMap(256, 256, seed, 0.01, 4, 0.5, 2.0, offsetX, offsetY)\<close> with the same
  arguments: before the modifiers are applied the grids are equal, cell for cell, and after
  the modifier loop each is the same grid shifted by its own modifier and clamped.
\<close>

theorem temperature_humidity_same_grid:
  "temperatureMap0 seed offsetX offsetY =
     generateNoiseMap 256 256 seed 0.01 4 0.5 2.0 offsetX offsetY \<and>
   humidityMap0 seed offsetX offsetY =
     generateNoiseMap 256 256 seed 0.01 4 0.5 2.0 offsetX offsetY \<and>
   temperatureMap0 seed offsetX offsetY = humidityMap0 seed offsetX offsetY \<and>
   (\<forall>z < 256. \<forall>x < 256.
      temperatureMap0 seed offsetX offsetY ! z ! x = humidityMap0 seed offsetX offsetY ! z ! x) \<and>
   shiftMaps (temperatureMap0 seed offsetX offsetY) (humidityMap0 seed offsetX offsetY)
       tempModifier humidModifier =
     (map (map (\<lambda>v. clamp (v + tempModifier) 0 1)) (temperatureMap0 seed offsetX offsetY),
      map (map (\<lambda>v. clamp (v + humidModifier) 0 1)) (temperatureMap0 seed offsetX offsetY))"
proof -
  have eq: "humidityMap0 seed offsetX offsetY = temperatureMap0 seed offsetX offsetY"
    by (simp add: temperatureMap0_def humidityMap0_def)
  have "shiftMaps (temperatureMap0 seed offsetX offsetY) (humidityMap0 seed offsetX offsetY)
       tempModifier humidModifier =
     (map (map (\<lambda>v. clamp (v + tempModifier) 0 1)) (temperatureMap0 seed offsetX offsetY),
      map (map (\<lambda>v. clamp (v + humidModifier) 0 1)) (temperatureMap0 seed offsetX offsetY))"
    unfolding shiftMaps_def eq
    by (simp only: map_index_rows [where f = "\<lambda>v. clamp (v + tempModifier) 0 1"]
        map_index_rows [where f = "\<lambda>v. clamp (v + humidModifier) 0 1"])
  then show ?thesis using eq by (simp add: temperatureMap0_def)
qed

theorem temperature_humidity_same_grid_witness:
  "temperatureMap0 42 0 0 = humidityMap0 42 0 0 \<and>
   temperatureMap0 42 0 0 ! 0 ! 0 = humidityMap0 42 0 0 ! 0 ! 0 \<and>
   temperatureMap0 42 0 0 ! 255 ! 255 = humidityMap0 42 0 0 ! 255 ! 255"
  using temperature_humidity_same_grid [of 42 0 0 0 0] by simp

section \<open>The shape of the mesh\<close>

lemma collect_all_Inr:
  "(\<forall>x \<in> set xs. \<exists>v. f x = Inr v \<and> P v) \<Longrightarrow>
   \<exists>vs. collect (map f xs) = Inr vs \<and> length vs = length xs \<and> (\<forall>v \<in> set vs. P v)"
proof (induction xs)
  case Nil
  then show ?case by simp
next
  case (Cons a xs)
  then obtain vs where vs: "collect (map f xs) = Inr vs" "length vs = length xs"
    "\<forall>v \<in> set vs. P v" by auto
  from Cons.prems obtain v where v: "f a = Inr v" "P v" by auto
  have "collect (map f (a # xs)) = Inr (v # vs)" using v vs by simp
  with v vs show ?case by simp
qed

lemma temperatureMap0_shape:
  "length (temperatureMap0 seed ox oy) = 256 \<and>
   (\<forall>z < 256. length (temperatureMap0 seed ox oy ! z) = 256)"
  using generateNoiseMap_shape [of 256 256 seed "0.01" 4 "0.5" "2.0" ox oy]
  unfolding temperatureMap0_def by (auto simp: all_set_conv_all_nth)

lemma shiftMaps_shape:
  "shiftMaps (temperatureMap0 seed ox oy) (humidityMap0 seed ox oy) a b = (tm, hm) \<Longrightarrow>
   length tm = 256 \<and> length hm = 256 \<and>
   (\<forall>z < 256. length (tm ! z) = 256 \<and> length (hm ! z) = 256)"
  using temperatureMap0_shape [of seed ox oy] by (auto simp: shiftMaps_def)

text \<open>For a positive number of segments the index into the auxiliary grids is in 0..255.\<close>

lemma mapIndex_range:
  assumes "0 < segments" "int z \<le> segments"
  shows "\<exists>k. mapIndex z segments = Some k \<and> 0 \<le> k \<and> k < 256"
proof -
  let ?q = "real z * 255 / real_of_int segments"
  have "0 \<le> ?q" using assms by simp
  moreover have "?q \<le> 255"
  proof -
    have "real z \<le> real_of_int segments" using assms(2) by linarith
    then have "real z * 255 \<le> 255 * real_of_int segments" by simp
    then show ?thesis using assms(1) by (simp add: pos_divide_le_eq)
  qed
  ultimately have "0 \<le> \<lfloor>?q\<rfloor> \<and> \<lfloor>?q\<rfloor> < 256" by (simp add: floor_less_iff)
  then show ?thesis using assms(1) by (simp add: mapIndex_def)
qed

lemma elemAt_in:
  "0 \<le> k \<Longrightarrow> k < int (length xs) \<Longrightarrow> elemAt xs (Some k) = Some (xs ! nat k)"
  by (simp add: elemAt_def)

lemma biomeCell_ok:
  assumes seg: "0 < segments" and z: "int z \<le> segments" and x: "int x \<le> segments"
    and shape: "length tm = 256 \<and> length hm = 256 \<and>
      (\<forall>z < 256. length (tm ! z) = 256 \<and> length (hm ! z) = 256)"
    and ne: "rules \<noteq> []"
  shows "\<exists>b. biomeCell rules segments nm tm hm z x = Inr (Some b)"
proof -
  from mapIndex_range [OF seg z] obtain kz where
    kz: "mapIndex z segments = Some kz" "0 \<le> kz" "kz < 256" by blast
  from mapIndex_range [OF seg x] obtain kx where
    kx: "mapIndex x segments = Some kx" "0 \<le> kx" "kx < 256" by blast
  have nz: "nat kz < 256" using kz by linarith
  have rt: "elemAt tm (Some kz) = Some (tm ! nat kz)" using kz shape by (simp add: elemAt_in)
  have rh: "elemAt hm (Some kz) = Some (hm ! nat kz)" using kz shape by (simp add: elemAt_in)
  have ct: "elemAt (tm ! nat kz) (Some kx) = Some (tm ! nat kz ! nat kx)"
    using kx shape nz by (simp add: elemAt_in)
  have ch: "elemAt (hm ! nat kz) (Some kx) = Some (hm ! nat kz ! nat kx)"
    using kx shape nz by (simp add: elemAt_in)
  have "biomeCell rules segments nm tm hm z x =
      Inr (selectBiome rules (tm ! nat kz ! nat kx) (hm ! nat kz ! nat kx) (nm ! z ! x))"
    by (simp add: biomeCell_def kz kx rt rh ct ch)
  moreover from selectBiome_in_rules [OF ne] obtain b where
    "selectBiome rules (tm ! nat kz ! nat kx) (hm ! nat kz ! nat kx) (nm ! z ! x) = Some b"
    by blast
  ultimately show ?thesis by simp
qed

lemma biomeMapOf_ok:
  assumes seg: "0 < segments"
    and shape: "length tm = 256 \<and> length hm = 256 \<and>
      (\<forall>z < 256. length (tm ! z) = 256 \<and> length (hm ! z) = 256)"
    and ne: "rules \<noteq> []"
  shows "\<exists>bm. biomeMapOf rules segments nm tm hm = Inr bm \<and>
     length bm = nat (segments + 1) \<and>
     (\<forall>row \<in> set bm. length row = nat (segments + 1) \<and> (\<forall>c \<in> set row. c \<noteq> None))"
proof -
  let ?n = "nat (segments + 1)"
  let ?cell = "biomeCell rules segments nm tm hm"
  let ?row = "\<lambda>z. collect (map (?cell z) [0..<?n])"
  have row: "\<exists>r. ?row z = Inr r \<and> (length r = ?n \<and> (\<forall>c \<in> set r. c \<noteq> None))"
    if z: "z \<in> set [0..<?n]" for z
  proof -
    have "\<forall>x \<in> set [0..<?n]. \<exists>v. ?cell z x = Inr v \<and> v \<noteq> None"
    proof
      fix x assume x: "x \<in> set [0..<?n]"
      have "int z \<le> segments" "int x \<le> segments" using z x by auto
      from biomeCell_ok [OF seg this shape ne, of nm]
      show "\<exists>v. ?cell z x = Inr v \<and> v \<noteq> None" by auto
    qed
    from collect_all_Inr [of "[0..<?n]" "?cell z" "\<lambda>v. v \<noteq> None", OF this]
    show ?thesis by auto
  qed
  then have "\<forall>z \<in> set [0..<?n]. \<exists>r. ?row z = Inr r \<and>
      (length r = ?n \<and> (\<forall>c \<in> set r. c \<noteq> None))" by blast
  from collect_all_Inr [of "[0..<?n]" ?row
      "\<lambda>r. length r = ?n \<and> (\<forall>c \<in> set r. c \<noteq> None)", OF this]
  show ?thesis unfolding biomeMapOf_def by auto
qed

lemma cellColor_length:
  "c \<noteq> None \<Longrightarrow> \<exists>v. cellColor rgb c = Inr v \<and> length v = 3"
  by (cases c) (auto simp: cellColor_def split: prod.splits)

lemma concat_const_length:
  "\<forall>v \<in> set vs. length v = k \<Longrightarrow> length (concat vs) = k * length vs"
  by (induction vs) simp_all

lemma colorBuffer_ok:
  assumes "\<forall>row \<in> set bm. \<forall>c \<in> set row. c \<noteq> None"
  shows "\<exists>cs. colorBuffer rgb bm = Inr cs \<and> length cs = 3 * length (concat bm)"
proof -
  have "\<forall>c \<in> set (concat bm). \<exists>v. cellColor rgb c = Inr v \<and> length v = 3"
    using assms cellColor_length by auto
  from collect_all_Inr [of "concat bm" "cellColor rgb" "\<lambda>v. length v = 3", OF this]
  obtain vs where vs: "collect (map (cellColor rgb) (concat bm)) = Inr vs"
    "length vs = length (concat bm)" "\<forall>v \<in> set vs. length v = 3" by blast
  have "length (concat vs) = 3 * length vs" using vs(3) by (rule concat_const_length)
  then show ?thesis using vs by (simp add: colorBuffer_def)
qed

lemma mesh_positive:
  assumes seg: "0 < segments"
  shows "\<exists>mesh. generateTerrainMesh rgb size' segments seed scale octaves persistence
       lacunarity amplitude offsetX offsetY tempModifier humidModifier = Inr mesh \<and>
     geometrySize mesh = size' \<and>
     vertexCount mesh = nat ((segments + 1)\<^sup>2) \<and>
     length (positionY mesh) = nat ((segments + 1)\<^sup>2) \<and>
     length (colors mesh) = nat ((segments + 1)\<^sup>2) * 3"
proof -
  let ?n = "nat (segments + 1)"
  obtain tm hm where sh: "shiftMaps (temperatureMap0 seed offsetX offsetY)
      (humidityMap0 seed offsetX offsetY) tempModifier humidModifier = (tm, hm)"
    by (cases "shiftMaps (temperatureMap0 seed offsetX offsetY)
      (humidityMap0 seed offsetX offsetY) tempModifier humidModifier") auto
  let ?nm = "generateNoiseMap (real_of_int (segments + 1)) (real_of_int (segments + 1))
      seed scale octaves persistence lacunarity offsetX offsetY"
  have ne: "biomes \<noteq> []" by (simp add: biomes_def)
  from biomeMapOf_ok [OF seg shiftMaps_shape [OF sh] ne, of ?nm] obtain bm where
    bm: "biomeMapOf biomes segments ?nm tm hm = Inr bm" "length bm = ?n"
    "\<forall>row \<in> set bm. length row = ?n \<and> (\<forall>c \<in> set row. c \<noteq> None)" by blast
  have "length (concat bm) = ?n * length bm"
    using bm(3) by (intro concat_const_length) auto
  then have lc: "length (concat bm) = ?n * ?n" using bm(2) by simp
  from colorBuffer_ok [of bm rgb] bm(3) obtain cs where
    cs: "colorBuffer rgb bm = Inr cs" "length cs = 3 * length (concat bm)" by auto
  have sq: "nat ((segments + 1)\<^sup>2) = ?n * ?n"
    using seg by (simp add: power2_eq_square nat_mult_distrib)
  show ?thesis
    unfolding generateTerrainMesh_def Let_def sh prod.case bm(1) sum.case cs
    using cs(2) by (simp add: lc sq planeVertexCount_def)
qed

lemma mesh_negative:
  assumes "segments < 0"
  shows "generateTerrainMesh rgb size' segments seed scale octaves persistence
       lacunarity amplitude offsetX offsetY tempModifier humidModifier =
     Inr \<lparr>geometrySize = size', vertexCount = 0, positionY = [], colors = []\<rparr>"
  using assms
  by (simp add: generateTerrainMesh_def Let_def biomeMapOf_def colorBuffer_def
      planeVertexCount_def split: prod.splits)

lemma mesh_zero:
  "generateTerrainMesh rgb size' 0 seed scale octaves persistence
       lacunarity amplitude offsetX offsetY tempModifier humidModifier = Inl TypeError"
  by (simp add: generateTerrainMesh_def Let_def biomeMapOf_def biomeCell_def mapIndex_def
      elemAt_def split: prod.splits)

text \<open>
  The heights are read inside the height map: it has \<open>segments + 1\<close> rows of
  \<open>segments + 1\<close> cells, and vertex \<open>i\<close> reads row \<open>i div (segments + 1)\<close>, column
  \<open>i mod (segments + 1)\<close>.
\<close>

lemma height_reads_in_range:
  assumes "0 \<le> segments" "i < planeVertexCount segments"
  shows "i div nat (segments + 1) < length (generateNoiseMap (real_of_int (segments + 1))
      (real_of_int (segments + 1)) seed scale octaves persistence lacunarity offsetX offsetY) \<and>
    i mod nat (segments + 1) < length (generateNoiseMap (real_of_int (segments + 1))
      (real_of_int (segments + 1)) seed scale octaves persistence lacunarity offsetX offsetY
      ! (i div nat (segments + 1)))"
proof -
  let ?n = "nat (segments + 1)"
  have n: "0 < ?n" using assms(1) by simp
  have c: "nat \<lceil>real_of_int (segments + 1)\<rceil> = ?n" by (simp only: ceiling_of_int)
  have d: "i div ?n < ?n" using assms(2) n
    by (simp add: planeVertexCount_def less_mult_imp_div_less)
  have m: "i mod ?n < ?n" using n by simp
  show ?thesis using d m c by (simp add: generateNoiseMap_def Let_def)
qed

text \<open>
  C7, as the code has it.  For every positive number of segments the function returns a
  mesh with \<open>(segments + 1)\<^sup>2\<close> vertices, one height per vertex, and a colour buffer of
  three components per vertex.
\<close>

theorem generateTerrainMesh_counts:
  "0 < segments \<Longrightarrow>
   \<exists>mesh. generateTerrainMesh rgb size' segments seed scale octaves persistence
       lacunarity amplitude offsetX offsetY tempModifier humidModifier = Inr mesh \<and>
     vertexCount mesh = nat ((segments + 1)\<^sup>2) \<and>
     length (positionY mesh) = vertexCount mesh \<and>
     length (colors mesh) = vertexCount mesh * 3"
  using mesh_positive [of segments rgb size' seed scale octaves persistence
      lacunarity amplitude offsetX offsetY tempModifier humidModifier]
  by auto

text \<open>Four segments, with the defaults of the source: 25 vertices, 75 colour components.\<close>

theorem generateTerrainMesh_counts_witness:
  "(0 :: int) < 4 \<and>
   (\<forall>rgb. \<exists>mesh. generateTerrainMesh rgb 100 4 42 0.05 8 0.4 2.0 0.05 0 0 0 0 = Inr mesh \<and>
      vertexCount mesh = 25 \<and> length (positionY mesh) = 25 \<and> length (colors mesh) = 75)"
proof -
  have h: "(0 :: int) < 4" by simp
  have "\<exists>mesh. generateTerrainMesh rgb 100 4 42 0.05 8 0.4 2.0 0.05 0 0 0 0 = Inr mesh \<and>
      vertexCount mesh = 25 \<and> length (positionY mesh) = 25 \<and> length (colors mesh) = 75"
    for rgb
    using generateTerrainMesh_counts [OF h, of rgb 100 42 "0.05" 8 "0.4" "2.0" "0.05" 0 0 0 0]
    by auto
  with h show ?thesis by blast
qed

text \<open>
  With no segment the first cell of the biome map divides by zero, indexes the temperature
  grid with a value that is no index, and the read of the missing row raises.
\<close>

theorem generateTerrainMesh_zero_segments_raises:
  "generateTerrainMesh (\<lambda>c. (0, 0, 0)) 100 0 42 0.05 8 0.4 2.0 0.05 0 0 0 0 = Inl TypeError"
  by (rule mesh_zero)

section \<open>Negative size and negative segments\<close>

text \<open>
  C6, as the code has it.  \<^verbatim>\<open>generateTerrainMesh\<close> validates neither argument.  With a
  negative number of segments it returns, without error, a mesh with no vertex and an empty
  colour buffer; with a positive number of segments it returns a mesh whatever the size;
  and the size reaches only the plane geometry: two calls that differ in the size alone
  return results that differ in the geometry's size alone.
\<close>

theorem generateTerrainMesh_no_validation:
  "(segments < 0 \<longrightarrow>
      generateTerrainMesh rgb size' segments seed scale octaves persistence lacunarity
        amplitude offsetX offsetY tempModifier humidModifier =
      Inr \<lparr>geometrySize = size', vertexCount = 0, positionY = [], colors = []\<rparr>) \<and>
   (0 < segments \<longrightarrow>
      (\<exists>mesh. generateTerrainMesh rgb size' segments seed scale octaves persistence lacunarity
         amplitude offsetX offsetY tempModifier humidModifier = Inr mesh \<and>
         geometrySize mesh = size')) \<and>
   generateTerrainMesh rgb size' segments seed scale octaves persistence lacunarity
     amplitude offsetX offsetY tempModifier humidModifier =
   map_sum id (\<lambda>mesh. mesh\<lparr>geometrySize := size'\<rparr>)
     (generateTerrainMesh rgb size'' segments seed scale octaves persistence lacunarity
        amplitude offsetX offsetY tempModifier humidModifier)"
proof (intro conjI impI)
  assume "segments < 0"
  then show "generateTerrainMesh rgb size' segments seed scale octaves persistence lacunarity
        amplitude offsetX offsetY tempModifier humidModifier =
      Inr \<lparr>geometrySize = size', vertexCount = 0, positionY = [], colors = []\<rparr>"
    by (rule mesh_negative)
next
  assume "0 < segments"
  from mesh_positive [OF this, of rgb size' seed scale octaves persistence
      lacunarity amplitude offsetX offsetY tempModifier humidModifier]
  show "\<exists>mesh. generateTerrainMesh rgb size' segments seed scale octaves persistence lacunarity
         amplitude offsetX offsetY tempModifier humidModifier = Inr mesh \<and>
         geometrySize mesh = size'"
    by blast
next
  show "generateTerrainMesh rgb size' segments seed scale octaves persistence lacunarity
     amplitude offsetX offsetY tempModifier humidModifier =
   map_sum id (\<lambda>mesh. mesh\<lparr>geometrySize := size'\<rparr>)
     (generateTerrainMesh rgb size'' segments seed scale octaves persistence lacunarity
        amplitude offsetX offsetY tempModifier humidModifier)"
    unfolding generateTerrainMesh_def Let_def
    by (simp split: prod.splits sum.splits)
qed

theorem generateTerrainMesh_no_validation_witness:
  "(- 4 :: int) < 0 \<and> (0 :: int) < 4 \<and>
   (\<forall>rgb. generateTerrainMesh rgb (- 100) (- 4) 42 0.05 8 0.4 2.0 0.05 0 0 0 0 =
      Inr \<lparr>geometrySize = - 100, vertexCount = 0, positionY = [], colors = []\<rparr>) \<and>
   (\<forall>rgb. \<exists>mesh. generateTerrainMesh rgb (- 100) 4 42 0.05 8 0.4 2.0 0.05 0 0 0 0 = Inr mesh \<and>
      geometrySize mesh = - 100)"
proof -
  note main = generateTerrainMesh_no_validation
  have a: "(- 4 :: int) < 0" and b: "(0 :: int) < 4" by simp_all
  have "generateTerrainMesh rgb (- 100) (- 4) 42 0.05 8 0.4 2.0 0.05 0 0 0 0 =
      Inr \<lparr>geometrySize = - 100, vertexCount = 0, positionY = [], colors = []\<rparr>" for rgb
    using main [of "- 4" rgb "- 100" 42 "0.05" 8 "0.4" "2.0" "0.05" 0 0 0 0] a by blast
  moreover have "\<exists>mesh. generateTerrainMesh rgb (- 100) 4 42 0.05 8 0.4 2.0 0.05 0 0 0 0 =
      Inr mesh \<and> geometrySize mesh = - 100" for rgb
    using main [of 4 rgb "- 100" 42 "0.05" 8 "0.4" "2.0" "0.05" 0 0 0 0] b by blast
  ultimately show ?thesis using a b by blast
qed

text \<open>
  The claim as worded fails: a call with a negative size and a negative number of segments
  returns an empty mesh, and a call with a negative size and four segments returns a mesh;
  neither raises.
\<close>

theorem generateTerrainMesh_negative_not_reported:
  "generateTerrainMesh (\<lambda>c. (0, 0, 0)) (- 100) (- 4) 42 0.05 8 0.4 2.0 0.05 0 0 0 0 =
     Inr \<lparr>geometrySize = - 100, vertexCount = 0, positionY = [], colors = []\<rparr> \<and>
   generateTerrainMesh (\<lambda>c. (0, 0, 0)) (- 100) 4 42 0.05 8 0.4 2.0 0.05 0 0 0 0 \<noteq>
     Inl TypeError"
proof -
  have "generateTerrainMesh (\<lambda>c. (0, 0, 0)) (- 100) (- 4) 42 0.05 8 0.4 2.0 0.05 0 0 0 0 =
     Inr \<lparr>geometrySize = - 100, vertexCount = 0, positionY = [], colors = []\<rparr>"
    by (rule mesh_negative) simp
  moreover have
    "generateTerrainMesh (\<lambda>c. (0, 0, 0)) (- 100) 4 42 0.05 8 0.4 2.0 0.05 0 0 0 0 \<noteq>
     Inl TypeError"
    using mesh_positive [of 4 "\<lambda>c. (0, 0, 0)" "- 100" 42 "0.05" 8 "0.4" "2.0" "0.05" 0 0 0 0]
    by auto
  ultimately show ?thesis by blast
qed

end
